theory Spec2Isabelle
  imports Complex_Main
begin

section \<open>Errors and the status decoder\<close>

text \<open>
  A \<open>GoogleError\<close> as the streaming code reads and writes it: the numeric status
  \<open>code\<close> (absent on a plain \<open>Error\<close>), the \<open>message\<close>, the bytes stored in the
  metadata under \<open>grpc-status-details-bin\<close>, the decoded \<open>reason\<close>, \<open>domain\<close> and
  \<open>errorInfoMetadata\<close>, and the optional \<open>note\<close> (field \<open>err_note\<close>, since
  \<open>note\<close> is a keyword).
\<close>

record gerror =
  code :: "int option"
  message :: string
  details_bin :: "string option"
  reason :: "string option"
  domain :: "string option"
  errorInfoMetadata :: "(string \<times> string) list option"
  err_note :: "string option"

record error_info =
  ei_reason :: string
  ei_domain :: string
  ei_metadata :: "(string \<times> string) list"

text \<open>
  What the host supplies and the repository's sources do not define: the protobuf decoder
  of a \<open>google.rpc.Status\<close> (it returns the \<open>ErrorInfo\<close> entries of the blob, none for a
  malformed one) and JavaScript's conversion of a number to a string.
\<close>

record js_env =
  decodeStatus :: "string \<Rightarrow> error_info list"
  numberToString :: "rat \<Rightarrow> string"

definition Status_INVALID_ARGUMENT :: int where
  "Status_INVALID_ARGUMENT = 3"

definition Status_DEADLINE_EXCEEDED :: int where
  "Status_DEADLINE_EXCEEDED = 4"

text \<open>\<open>new GoogleError(msg)\<close>: a fresh error carrying only its message.\<close>

definition new_GoogleError :: "string \<Rightarrow> gerror" where
  "new_GoogleError msg =
     \<lparr>code = None, message = msg, details_bin = None, reason = None, domain = None,
      errorInfoMetadata = None, err_note = None\<rparr>"

text \<open>
  \<open>Error.prototype.toString\<close>, which the template strings apply to the original error:
  the name \<open>Error\<close>, then the message when there is one.
\<close>

definition error_toString :: "gerror \<Rightarrow> string" where
  "error_toString e = (if message e = [] then ''Error'' else ''Error: '' @ message e)"

definition copy_error_info :: "gerror \<Rightarrow> error_info \<Rightarrow> gerror" where
  "copy_error_info e i =
     e\<lparr>reason := Some (ei_reason i), domain := Some (ei_domain i),
       errorInfoMetadata := Some (ei_metadata i)\<rparr>"

text \<open>
  Modelled from the spec: \<open>GoogleError.parseGRPCStatusDetails\<close> (googleError.ts is not
  among the sources). It reads the \<open>grpc-status-details-bin\<close> entry if present, decodes
  it, copies reason, domain and metadata of each \<open>ErrorInfo\<close> onto the error, leaves the
  fields unset otherwise, never throws, and returns the same error.
\<close>

definition parseGRPCStatusDetails :: "js_env \<Rightarrow> gerror \<Rightarrow> gerror" where
  "parseGRPCStatusDetails env e =
     (case details_bin e of
        None \<Rightarrow> e
      | Some blob \<Rightarrow> foldl copy_error_info e (decodeStatus env blob))"

section \<open>Retry options\<close>

text \<open>
  Times and multipliers are exact rationals where the source computes with JavaScript
  numbers: a sum such as \<open>now.getTime() + totalTimeout\<close> is not rounded here.
\<close>

record backoff_settings =
  initialRetryDelayMillis :: rat
  retryDelayMultiplier :: rat
  maxRetryDelayMillis :: rat
  initialRpcTimeoutMillis :: "rat option"
  rpcTimeoutMultiplier :: "rat option"
  maxRpcTimeoutMillis :: "rat option"
  totalTimeoutMillis :: "rat option"
  maxRetries :: "int option"

record 'req retry_options =
  retryCodes :: "int list"
  backoffSettings :: backoff_settings
  shouldRetryFn :: "(gerror \<Rightarrow> bool) option"
  getResumptionRequestFn :: "('req \<Rightarrow> 'req) option"

text \<open>
  \<open>Array.prototype.indexOf\<close> on the retry codes: the first position of the code, or
  \<open>-1\<close>; an absent code (\<open>undefined\<close>) is never found in an array of numbers.
\<close>

fun indexOf_from :: "int list \<Rightarrow> int \<Rightarrow> int \<Rightarrow> int" where
  "indexOf_from [] c k = -1"
| "indexOf_from (x # xs) c k = (if x = c then k else indexOf_from xs c (k + 1))"

definition indexOf :: "int list \<Rightarrow> int option \<Rightarrow> int" where
  "indexOf xs c = (case c of None \<Rightarrow> -1 | Some v \<Rightarrow> indexOf_from xs v 0)"

text \<open>\<open>StreamProxy.defaultShouldRetry\<close>.\<close>

definition defaultShouldRetry :: "gerror \<Rightarrow> 'req retry_options \<Rightarrow> bool" where
  "defaultShouldRetry error retry =
     (if (length (retryCodes retry) > 0 \<and> indexOf (retryCodes retry) (code error) < 0)
          \<or> length (retryCodes retry) = 0
      then False else True)"

text \<open>\<open>StreamProxy.shouldRetryRequest\<close>: the predicate, when given, replaces the default.\<close>

definition shouldRetryRequest :: "js_env \<Rightarrow> gerror \<Rightarrow> 'req retry_options \<Rightarrow> bool" where
  "shouldRetryRequest env error retry =
     (let e = parseGRPCStatusDetails env error;
          shouldRetry = defaultShouldRetry e retry
      in case shouldRetryFn retry of
           Some f \<Rightarrow> f e
         | None \<Rightarrow> shouldRetry)"

section \<open>The server-streaming retry state machine\<close>

text \<open>
  Values that travel through the streams unchanged (metadata, status objects, messages)
  are opaque. The response envelope is the object literal that \<open>statusMetadataHelper\<close>
  builds; its \<open>metadata\<close> property may be missing.
\<close>

type_synonym payload = string

record response_envelope =
  rcode :: int
  rdetails :: string
  rmessage :: string
  rmetadata :: "payload option"

text \<open>
  The events of one request stream. An error event carries the clock reading that the
  handler takes with \<open>new Date()\<close> while it runs.
\<close>

datatype upstream =
    UMetadata payload
  | UResponse payload
  | UStatus payload
  | UData payload
  | UEnd
  | UError gerror rat

text \<open>
  What reaches the machine: an event of the request stream of attempt \<open>i\<close> (the
  handlers of an earlier attempt stay registered after a retry), or the firing of one
  of the timers set by \<open>setTimeout\<close>, with the clock reading at that moment.
\<close>

datatype event =
    Up nat upstream
  | TimerFired rat

text \<open>What \<open>retryStream.emit\<close> passes on; \<open>eventForwardHelper\<close> relays it to the proxy.\<close>

datatype emitted =
    Metadata payload
  | ResponseUpstream payload
  | Response response_envelope
  | Status payload

text \<open>
  The calls the machine makes on the streams it owns: \<open>retryStream.emit\<close>,
  \<open>this.emit('data', _)\<close>, \<open>retryStream.end()\<close>, \<open>requestStream.destroy()\<close> on the
  stream of an attempt, \<open>retryStream.destroy(e)\<close> (which raises \<open>e\<close> as the consumer's
  error event), \<open>setTimeout\<close>, the API call of a new attempt, \<open>this.stream.cancel()\<close>,
  and the \<open>TypeError\<close> of reading \<open>cancel\<close> from the \<open>undefined\<close> that a cancelled
  request function returns.
\<close>

datatype 'req action =
    RetryEmit emitted
  | ProxyEmitData payload
  | RetryEnd
  | RequestDestroy nat
  | RetryDestroy gerror
  | SetTimeout
  | ApiCall 'req
  | StreamCancel
  | ThrowTypeError

text \<open>The variables \<open>dataEnd\<close>, \<open>statusReceived\<close>, \<open>enteredError\<close> of one \<open>newMakeRequest\<close> call.\<close>

record attempt_locals =
  dataEnd :: bool
  statusReceived :: bool
  enteredError :: bool

definition fresh_locals :: attempt_locals where
  "fresh_locals = \<lparr>dataEnd = False, statusReceived = False, enteredError = False\<rparr>"

text \<open>
  What is fixed when \<open>newStreamingRetryRequest\<close> runs: the retry options, the argument of
  the call, whether \<open>cancel()\<close> came before the stream was set, and the deadline.
\<close>

record 'req retry_config =
  retry :: "'req retry_options"
  argument :: 'req
  isCancelCalled :: bool
  deadline :: rat

text \<open>
  What changes: the counter \<open>retries\<close>, the variable \<open>timeout\<close>, the proxy's
  \<open>_responseHasSent\<close>, the locals of every attempt made so far, and the number of timers
  set and not yet fired.
\<close>

record retry_state =
  retries :: int
  timeout :: "rat option"
  responseHasSent :: bool
  attempts :: "attempt_locals list"
  pending :: nat

text \<open>JavaScript truthiness of an optional number: \<open>undefined\<close> and \<open>0\<close> are falsy.\<close>

definition truthy :: "'a::zero option \<Rightarrow> bool" where
  "truthy v = (case v of None \<Rightarrow> False | Some x \<Rightarrow> x \<noteq> 0)"

text \<open>\<open>typeof v\<close> for an optional number, and \<open>typeof v !== undefined\<close> as the source
  writes it: a string compared with the value \<open>undefined\<close>.\<close>

definition typeof :: "'a option \<Rightarrow> string" where
  "typeof v = (case v of None \<Rightarrow> ''undefined'' | Some _ \<Rightarrow> ''number'')"

definition typeof_not_undefined :: "'a option \<Rightarrow> bool" where
  "typeof_not_undefined v = (Some (typeof v) \<noteq> (None :: string option))"

text \<open>
  \<open>throwIfMaxRetriesOrTotalTimeoutExceeded\<close>: \<open>Inl\<close> is the error thrown, \<open>Inr ()\<close> the
  return. \<open>nowTime\<close> is the clock reading. A comparison with \<open>undefined\<close> is false.
\<close>

definition throwIfMaxRetriesOrTotalTimeoutExceeded ::
  "js_env \<Rightarrow> rat \<Rightarrow> int option \<Rightarrow> rat option \<Rightarrow> gerror \<Rightarrow> rat option \<Rightarrow> int \<Rightarrow> rat
     \<Rightarrow> gerror + unit" where
  "throwIfMaxRetriesOrTotalTimeoutExceeded env deadline' maxRetries' totalTimeoutMillis'
       originalError originalTimeout retries' nowTime =
     (if truthy originalTimeout \<and>
         (totalTimeoutMillis' = Some 0 \<or>
          (case totalTimeoutMillis' of None \<Rightarrow> False | Some t \<Rightarrow> t < 0) \<or>
          (deadline' \<noteq> 0 \<and> nowTime \<ge> deadline'))
      then Inl ((new_GoogleError
             (''Total timeout of API exceeded '' @ numberToString env (the originalTimeout) @
              '' milliseconds '' @ (''retrying error '' @ error_toString originalError @ '' '') @
              '' before any response was received.''))
             \<lparr>code := Some Status_DEADLINE_EXCEEDED\<rparr>)
      else if maxRetries' = Some 0
      then Inl (originalError\<lparr>err_note := Some ''Max retries is set to zero.''\<rparr>)
      else if retries' \<noteq> 0 \<and> (case maxRetries' of None \<Rightarrow> False | Some m \<Rightarrow> retries' \<ge> m)
      then Inl ((new_GoogleError
             (''Exceeded maximum number of retries '' @
              (''retrying error '' @ error_toString originalError @ '' '') @
              ''before any response was received''))
             \<lparr>code := Some Status_DEADLINE_EXCEEDED\<rparr>)
      else Inr ())"

text \<open>
  \<open>statusMetadataHelper\<close>: the responses that its two listeners emit on the request
  stream for one event, and the new value of \<open>_responseHasSent\<close>.
\<close>

definition statusMetadataHelper :: "bool \<Rightarrow> upstream \<Rightarrow> response_envelope list \<times> bool" where
  "statusMetadataHelper sent ev =
     (case ev of
        UStatus _ \<Rightarrow>
          (if \<not> sent
           then ([\<lparr>rcode = 200, rdetails = '''', rmessage = ''OK'', rmetadata = None\<rparr>], sent)
           else ([], sent))
      | UMetadata metadata \<Rightarrow>
          ([\<lparr>rcode = 200, rdetails = '''', rmessage = ''OK'', rmetadata = Some metadata\<rparr>], True)
      | _ \<Rightarrow> ([], sent))"

text \<open>\<open>transientErrorHelper\<close>, for the request stream of attempt \<open>i\<close>.\<close>

definition transient_note :: string where
  "transient_note = ''Exception occurred in retry method that was '' @ ''not classified as transient''"

definition transientErrorHelper :: "js_env \<Rightarrow> gerror \<Rightarrow> nat \<Rightarrow> 'req action list" where
  "transientErrorHelper env error i =
     (let e = (parseGRPCStatusDetails env error)\<lparr>err_note := Some transient_note\<rparr>
      in [RequestDestroy i, RetryDestroy e])"

definition both_budgets_error :: gerror where
  "both_budgets_error =
     (new_GoogleError (''Cannot set both totalTimeoutMillis and maxRetries '' @ ''in backoffSettings.''))
       \<lparr>code := Some Status_INVALID_ARGUMENT\<rparr>"

text \<open>
  The \<open>'error'\<close> listener of attempt \<open>i\<close>, after it has set \<open>enteredError\<close>. The parse
  inside \<open>shouldRetryRequest\<close> writes the decoded fields into the error object itself, so
  the code after it sees the parsed error.
\<close>

definition on_error ::
  "js_env \<Rightarrow> 'req retry_config \<Rightarrow> retry_state \<Rightarrow> nat \<Rightarrow> gerror \<Rightarrow> rat
     \<Rightarrow> retry_state \<times> 'req action list" where
  "on_error env cfg s i error now =
     (let bs = backoffSettings (retry cfg);
          maxRetries' = maxRetries bs;
          totalTimeout = totalTimeoutMillis bs
      in if typeof_not_undefined maxRetries' \<or> typeof_not_undefined totalTimeout
         then
           if shouldRetryRequest env error (retry cfg)
           then
             if truthy maxRetries' \<and> truthy totalTimeout
             then (s, [RequestDestroy i, RetryDestroy both_budgets_error])
             else
               (case throwIfMaxRetriesOrTotalTimeoutExceeded env (deadline cfg) maxRetries'
                       (timeout s) (parseGRPCStatusDetails env error) totalTimeout (retries s) now of
                  Inl thrown \<Rightarrow>
                    (s, [RequestDestroy i, RetryDestroy (parseGRPCStatusDetails env thrown)])
                | Inr _ \<Rightarrow> (s\<lparr>pending := pending s + 1\<rparr>, [SetTimeout]))
           else (s, transientErrorHelper env (parseGRPCStatusDetails env error) i)
         else (s, transientErrorHelper env error i))"

text \<open>
  The request function and the start of \<open>newMakeRequest\<close>. A cancelled call returns
  \<open>undefined\<close> (after cancelling the current stream if there is one), and reading its
  \<open>cancel\<close> throws; otherwise the API is called and a new attempt gets fresh locals.
\<close>

definition newMakeRequest ::
  "'req retry_config \<Rightarrow> bool \<Rightarrow> 'req \<Rightarrow> retry_state \<Rightarrow> retry_state \<times> 'req action list" where
  "newMakeRequest cfg stream_set arg s =
     (if isCancelCalled cfg
      then (s, (if stream_set then [StreamCancel] else []) @ [ThrowTypeError])
      else (s\<lparr>attempts := attempts s @ [fresh_locals]\<rparr>, [ApiCall arg]))"

text \<open>
  The timer callback: the new timeout, \<open>retries++\<close>, the resumption request, the new
  attempt. The variable \<open>delay\<close> is local to the \<open>'error'\<close> listener and only feeds the
  random sleep time \<open>toSleep\<close> of \<open>setTimeout\<close>; the firing of the timer is an event here, so
  neither appears.
\<close>

definition on_timer ::
  "'req retry_config \<Rightarrow> retry_state \<Rightarrow> rat \<Rightarrow> retry_state \<times> 'req action list" where
  "on_timer cfg s now =
     (let bs = backoffSettings (retry cfg);
          timeout' =
            (if truthy (timeout s)
             then
               (let timeoutCal = (if truthy (timeout s) \<and> truthy (rpcTimeoutMultiplier bs)
                                  then the (timeout s) * the (rpcTimeoutMultiplier bs) else 0);
                    rpcTimeout = (if truthy (maxRpcTimeoutMillis bs)
                                  then the (maxRpcTimeoutMillis bs) else 0);
                    newDeadline = (if deadline cfg \<noteq> 0 then deadline cfg - now else 0)
                in Some (min timeoutCal (min rpcTimeout newDeadline)))
             else timeout s);
          s1 = s\<lparr>timeout := timeout', retries := retries s + 1, pending := pending s - 1\<rparr>;
          retryArgument =
            (case getResumptionRequestFn (retry cfg) of
               None \<Rightarrow> argument cfg
             | Some f \<Rightarrow> f (argument cfg))
      in newMakeRequest cfg True retryArgument s1)"

text \<open>The listeners of attempt \<open>i\<close>, in the order in which they were registered.\<close>

definition on_upstream ::
  "js_env \<Rightarrow> 'req retry_config \<Rightarrow> retry_state \<Rightarrow> nat \<Rightarrow> upstream
     \<Rightarrow> retry_state \<times> 'req action list" where
  "on_upstream env cfg s i ev =
     (let l = attempts s ! i in
      case ev of
        UMetadata m \<Rightarrow>
          (s\<lparr>responseHasSent := snd (statusMetadataHelper (responseHasSent s) ev)\<rparr>,
           RetryEmit (Metadata m) #
             map (\<lambda>r. RetryEmit (Response r)) (fst (statusMetadataHelper (responseHasSent s) ev)))
      | UResponse r \<Rightarrow> (s, [RetryEmit (ResponseUpstream r)])
      | UStatus st \<Rightarrow>
          (s\<lparr>responseHasSent := snd (statusMetadataHelper (responseHasSent s) ev),
             attempts := (attempts s)[i := l\<lparr>statusReceived := True\<rparr>]\<rparr>,
           RetryEmit (Status st) #
             map (\<lambda>r. RetryEmit (Response r)) (fst (statusMetadataHelper (responseHasSent s) ev)) @
             (if dataEnd l then [RetryEnd] else []))
      | UData d \<Rightarrow> (s\<lparr>retries := 0\<rparr>, [ProxyEmitData d])
      | UEnd \<Rightarrow>
          (if \<not> enteredError l
           then (s\<lparr>attempts := (attempts s)[i := l\<lparr>dataEnd := True\<rparr>]\<rparr>,
                 if statusReceived l then [RetryEnd] else [])
           else (s, []))
      | UError error now \<Rightarrow>
          on_error env cfg (s\<lparr>attempts := (attempts s)[i := l\<lparr>enteredError := True\<rparr>]\<rparr>)
            i error now)"

text \<open>
  One step. A stream that was never created emits nothing, and a timer fires only if one
  is set.
\<close>

definition step ::
  "js_env \<Rightarrow> 'req retry_config \<Rightarrow> retry_state \<Rightarrow> event \<Rightarrow> retry_state \<times> 'req action list" where
  "step env cfg s e =
     (case e of
        Up i ev \<Rightarrow> (if i < length (attempts s) then on_upstream env cfg s i ev else (s, []))
      | TimerFired now \<Rightarrow> (if pending s = 0 then (s, []) else on_timer cfg s now))"

fun run ::
  "js_env \<Rightarrow> 'req retry_config \<Rightarrow> retry_state \<Rightarrow> event list \<Rightarrow> retry_state \<times> 'req action list" where
  "run env cfg s [] = (s, [])"
| "run env cfg s (e # es) =
     (let (s1, out1) = step env cfg s e;
          (s2, out2) = run env cfg s1 es
      in (s2, out1 @ out2))"

text \<open>
  \<open>newStreamingRetryRequest\<close>, called at the clock reading \<open>now\<close> on a proxy whose
  \<open>_responseHasSent\<close> the constructor has cleared: the configuration (with the deadline),
  the state after the first \<open>newMakeRequest\<close>, and the calls made.
\<close>

definition make_config :: "'req retry_options \<Rightarrow> 'req \<Rightarrow> bool \<Rightarrow> rat \<Rightarrow> 'req retry_config" where
  "make_config r arg cancelled now =
     \<lparr>retry = r, argument = arg, isCancelCalled = cancelled,
      deadline = (if truthy (totalTimeoutMillis (backoffSettings r))
                  then now + the (totalTimeoutMillis (backoffSettings r)) else 0)\<rparr>"

definition initial_state :: "'req retry_options \<Rightarrow> retry_state" where
  "initial_state r =
     \<lparr>retries = 0, timeout = initialRpcTimeoutMillis (backoffSettings r),
      responseHasSent = False, attempts = [], pending = 0\<rparr>"

definition newStreamingRetryRequest ::
  "'req retry_options \<Rightarrow> 'req \<Rightarrow> bool \<Rightarrow> rat \<Rightarrow> 'req retry_config \<times> retry_state \<times> 'req action list" where
  "newStreamingRetryRequest r arg cancelled now =
     (let cfg = make_config r arg cancelled now;
          (s, out) = newMakeRequest cfg False arg (initial_state r)
      in (cfg, s, out))"

section \<open>The legacy streaming retry wrapper\<close>













section \<open>The page engine\<close>

subsection \<open>The asynchronous iterator\<close>

definition maxAttemptsEmptyResponse :: nat where
  "maxAttemptsEmptyResponse = 10"

text \<open>
  The first component of what \<open>apiCall\<close> resolves to: an array of resources, an object
  standing for a protobuf map, or \<open>null\<close>. The cache holds resources and, for a map,
  key-value pairs.
\<close>

datatype 'r page_result =
    PArray "'r list"
  | PMap "(string \<times> 'r) list"
  | PNull

datatype 'r cache_item =
    Resource 'r
  | Entry string 'r

text \<open>
  A rejected \<open>apiCall\<close> rejects \<open>next()\<close> with the same reason; spreading \<open>null\<close> into
  \<open>cache.push\<close> throws a \<open>TypeError\<close>.
\<close>

datatype 'e iter_error =
    ApiRejected 'e
  | SpreadTypeError

datatype 'r iter_result =
    Yield "'r cache_item"
  | Done

text \<open>What one response adds to the (empty) cache.\<close>

definition cache_push :: "'r page_result \<Rightarrow> 'e iter_error + 'r cache_item list" where
  "cache_push result =
     (case result of
        PMap entries \<Rightarrow> Inr (map (\<lambda>(key, v). Entry key v) entries)
      | PArray rs \<Rightarrow> Inr (map Resource rs)
      | PNull \<Rightarrow> Inl SpreadTypeError)"

text \<open>
  The \<open>while\<close> loop of \<open>next()\<close>, entered with an empty cache: the arguments are
  \<open>nextPageRequest\<close>, \<open>attempts\<close> and the requests sent so far by this \<open>next()\<close>. It
  returns the cache, \<open>nextPageRequest\<close> and the requests sent; an error comes with the
  \<open>nextPageRequest\<close> and the requests of the moment it was raised.
\<close>

function fetch_loop ::
  "('q \<Rightarrow> 'e + 'r page_result \<times> 'q option) \<Rightarrow> 'q option \<Rightarrow> nat \<Rightarrow> 'q list
     \<Rightarrow> ('e iter_error \<times> 'q option \<times> 'q list) + ('r cache_item list \<times> 'q option \<times> 'q list)" where
  "fetch_loop apiCall nextPageRequest attempts' sent =
     (case nextPageRequest of
        None \<Rightarrow> Inr ([], None, sent)
      | Some q \<Rightarrow>
          (case apiCall q of
             Inl e \<Rightarrow> Inl (ApiRejected e, nextPageRequest, sent @ [q])
           | Inr (result, nextPageRequest') \<Rightarrow>
               (case cache_push result of
                  Inl e \<Rightarrow> Inl (e, nextPageRequest', sent @ [q])
                | Inr cache \<Rightarrow>
                    if cache = []
                    then (if attempts' + 1 > maxAttemptsEmptyResponse
                          then Inr ([], nextPageRequest', sent @ [q])
                          else fetch_loop apiCall nextPageRequest' (attempts' + 1) (sent @ [q]))
                    else Inr (cache, nextPageRequest', sent @ [q]))))"
  by pat_completeness auto
termination
  by (relation "measure (\<lambda>(apiCall, nextPageRequest, attempts', sent).
                  maxAttemptsEmptyResponse + 1 - attempts')") auto

text \<open>
  The iterator's state is its cache and \<open>nextPageRequest\<close>. \<open>next()\<close> returns the result,
  the new state and the requests it sent.
\<close>

definition iterator_next ::
  "('q \<Rightarrow> 'e + 'r page_result \<times> 'q option) \<Rightarrow> 'r cache_item list \<times> 'q option
     \<Rightarrow> ('e iter_error \<times> 'q option \<times> 'q list)
         + ('r iter_result \<times> ('r cache_item list \<times> 'q option) \<times> 'q list)" where
  "iterator_next apiCall st =
     (case st of (cache, nextPageRequest) \<Rightarrow>
        if length cache > 0
        then Inr (Yield (hd cache), (tl cache, nextPageRequest), [])
        else
          (case fetch_loop apiCall nextPageRequest 0 [] of
             Inl err \<Rightarrow> Inl err
           | Inr (cache', nextPageRequest', sent) \<Rightarrow>
               if length cache' = 0
               then Inr (Done, (cache', nextPageRequest'), sent)
               else Inr (Yield (hd cache'), (tl cache', nextPageRequest'), sent)))"

text \<open>\<open>createIterator\<close>: the iterator starts with an empty cache and the original request.\<close>

definition createIterator :: "'q \<Rightarrow> 'r cache_item list \<times> 'q option" where
  "createIterator request = ([], Some request)"

text \<open>
  Two paged APIs over numbered requests: every page is empty and names the next request;
  or only the first ten are, and the eleventh holds one resource and is the last.
\<close>

definition empty_pages_api :: "nat \<Rightarrow> string + string page_result \<times> nat option" where
  "empty_pages_api q = Inr (PArray [], Some (q + 1))"

definition ten_empty_pages_api :: "nat \<Rightarrow> string + string page_result \<times> nat option" where
  "ten_empty_pages_api q =
     (if q < 10 then Inr (PArray [], Some (q + 1)) else Inr (PArray [''resource''], None))"

subsection \<open>The page stream\<close>

text \<open>
  The call settings that \<open>createStream\<close> reads and writes; every other field of the
  options is in the record's extension. An absent property is \<open>None\<close>, and
  \<open>delete options.pageToken\<close> makes \<open>pageToken\<close> absent.
\<close>

record call_settings =
  autoPaginate :: "bool option"
  maxResults :: "int option"
  pageToken :: "string option"

text \<open>
  The variables of \<open>createStream\<close>: its own copy of the options, \<open>request\<close>,
  \<open>pushCount\<close>, \<open>started\<close>, and of the stream \<open>_readableState.ended\<close> (set by
  \<open>stream.end()\<close>) and \<open>isPaused()\<close>.
\<close>

record ('q, 'z) page_stream =
  options :: "'z call_settings_scheme"
  request :: 'q
  pushCount :: int
  started :: bool
  ended :: bool
  paused :: bool

text \<open>
  What happens to the stream: the consumer resumes or pauses it, or the API call
  completes and invokes \<open>callback(err, resources, next, apiResp)\<close>; a \<open>null\<close> resource is
  \<open>None\<close>.
\<close>

datatype ('q, 'r) stream_event =
    Resume
  | Pause
  | Callback "string option" "'r option list" "'q option" payload

text \<open>
  The calls of \<open>createStream\<close>: the warning, \<open>stream.emit('error', err)\<close>,
  \<open>stream.emit('response', apiResp)\<close>, \<open>stream.push\<close>, \<open>stream.end()\<close>, the API call of
  the \<open>resume\<close> listener and the API call handed to \<open>setImmediate\<close>, each with its
  request and the options at that moment.
\<close>

datatype ('q, 'r, 'z) stream_action =
    Warn
  | StreamEmitError string
  | StreamEmitResponse payload
  | StreamPush 'r
  | StreamEnd
  | PageCall 'q "'z call_settings_scheme"
  | PageCallImmediate 'q "'z call_settings_scheme"

text \<open>\<open>'maxResults' in options ? options.maxResults : -1\<close>; the options keep this field.\<close>

definition stream_maxResults :: "'z call_settings_scheme \<Rightarrow> int" where
  "stream_maxResults opts = (case maxResults opts of None \<Rightarrow> -1 | Some n \<Rightarrow> n)"

text \<open>The \<open>for\<close> loop of the callback over the resources of one page.\<close>

fun push_resources ::
  "int \<Rightarrow> ('q, 'z) page_stream \<Rightarrow> 'r option list
     \<Rightarrow> ('q, 'z) page_stream \<times> ('q, 'r, 'z) stream_action list" where
  "push_resources m s [] = (s, [])"
| "push_resources m s (r # rs) =
     (if ended s then (s, [])
      else
        (case r of
           None \<Rightarrow> push_resources m s rs
         | Some v \<Rightarrow>
             (let s1 = s\<lparr>pushCount := pushCount s + 1\<rparr>
              in if pushCount s1 = m
                 then (let (s2, out) = push_resources m (s1\<lparr>ended := True\<rparr>) rs
                       in (s2, [StreamPush v, StreamEnd] @ out))
                 else (let (s2, out) = push_resources m s1 rs
                       in (s2, StreamPush v # out)))))"

text \<open>The function \<open>callback\<close>.\<close>

definition callback ::
  "('q, 'z) page_stream \<Rightarrow> string option \<Rightarrow> 'r option list \<Rightarrow> 'q option \<Rightarrow> payload
     \<Rightarrow> ('q, 'z) page_stream \<times> ('q, 'r, 'z) stream_action list" where
  "callback s err resources next' apiResp =
     (case err of
        Some e \<Rightarrow> (s, [StreamEmitError e])
      | None \<Rightarrow>
          (let (s1, out1) = push_resources (stream_maxResults (options s)) s resources
           in if ended s1 then (s1, StreamEmitResponse apiResp # out1)
              else
                (case next' of
                   None \<Rightarrow> (s1\<lparr>ended := True\<rparr>, StreamEmitResponse apiResp # out1 @ [StreamEnd])
                 | Some n \<Rightarrow>
                     (let s2 = s1\<lparr>options := (options s1)\<lparr>pageToken := None\<rparr>\<rparr>
                      in if paused s2
                         then (s2\<lparr>request := n, started := False\<rparr>,
                               StreamEmitResponse apiResp # out1)
                         else (s2, StreamEmitResponse apiResp # out1
                                     @ [PageCallImmediate n (options s2)])))))"

text \<open>One event: the \<open>resume\<close> listener, a pause, or the callback.\<close>

definition stream_step ::
  "('q, 'z) page_stream \<Rightarrow> ('q, 'r) stream_event
     \<Rightarrow> ('q, 'z) page_stream \<times> ('q, 'r, 'z) stream_action list" where
  "stream_step s ev =
     (case ev of
        Resume \<Rightarrow>
          (if \<not> started s
           then (s\<lparr>paused := False, started := True\<rparr>, [PageCall (request s) (options s)])
           else (s\<lparr>paused := False\<rparr>, []))
      | Pause \<Rightarrow> (s\<lparr>paused := True\<rparr>, [])
      | Callback err resources next' apiResp \<Rightarrow> callback s err resources next' apiResp)"

fun stream_run ::
  "('q, 'z) page_stream \<Rightarrow> ('q, 'r) stream_event list
     \<Rightarrow> ('q, 'z) page_stream \<times> ('q, 'r, 'z) stream_action list" where
  "stream_run s [] = (s, [])"
| "stream_run s (e # es) =
     (let (s1, out1) = stream_step s e;
          (s2, out2) = stream_run s1 es
      in (s2, out1 @ out2))"

text \<open>\<open>createStream\<close> up to its \<open>return stream\<close>.\<close>

definition createStream ::
  "'q \<Rightarrow> 'z call_settings_scheme \<Rightarrow> ('q, 'z) page_stream \<times> ('q, 'r, 'z) stream_action list" where
  "createStream request' options' =
     (\<lparr>options = options'\<lparr>autoPaginate := Some False\<rparr>, request = request', pushCount = 0,
       started = False, ended = False, paused = False\<rparr>,
      if autoPaginate options' = Some True then [Warn] else [])"

text \<open>The API calls among the calls made, in order, each with its request and options.\<close>

fun page_calls :: "('q, 'r, 'z) stream_action list \<Rightarrow> ('q \<times> 'z call_settings_scheme) list" where
  "page_calls [] = []"
| "page_calls (PageCall q opts # acts) = (q, opts) # page_calls acts"
| "page_calls (PageCallImmediate q opts # acts) = (q, opts) # page_calls acts"
| "page_calls (_ # acts) = page_calls acts"

section \<open>Settings and errors of the unit tests\<close>

text \<open>
  The backoff settings that the streaming tests pass to \<open>createRetryOptions\<close>, with no
  budget; a test adds \<open>maxRetries\<close> or \<open>totalTimeoutMillis\<close> to them. The decoder of the
  test environment finds no \<open>ErrorInfo\<close>, and its number conversion prints the whole,
  non-negative milliseconds that the tests use in decimal.
\<close>

function decimal :: "nat \<Rightarrow> string" where
  "decimal n = (if n < 10 then [char_of (48 + n)] else decimal (n div 10) @ [char_of (48 + n mod 10)])"
  by pat_completeness auto
termination
  by (relation "measure id") auto

definition test_env :: js_env where
  "test_env = \<lparr>decodeStatus = (\<lambda>_. []), numberToString = (\<lambda>q. decimal (nat \<lfloor>q\<rfloor>))\<rparr>"

definition test_backoff :: backoff_settings where
  "test_backoff =
     \<lparr>initialRetryDelayMillis = 100, retryDelayMultiplier = 6 / 5, maxRetryDelayMillis = 1000,
      initialRpcTimeoutMillis = None, rpcTimeoutMultiplier = Some (3 / 2),
      maxRpcTimeoutMillis = Some 3000, totalTimeoutMillis = None, maxRetries = None\<rparr>"

definition test_retry :: "int list \<Rightarrow> backoff_settings \<Rightarrow> int retry_options" where
  "test_retry cs bs =
     \<lparr>retryCodes = cs, backoffSettings = bs, shouldRetryFn = None,
      getResumptionRequestFn = None\<rparr>"

definition test_error :: "int \<Rightarrow> string \<Rightarrow> gerror" where
  "test_error c msg = (new_GoogleError msg)\<lparr>code := Some c\<rparr>"

section \<open>Event sequences and predicates of the statements\<close>


text \<open>
  The events seen so far account for the flags of every attempt: \<open>dataEnd\<close> is set only
  by an \<open>end\<close> of that attempt's stream, \<open>statusReceived\<close> only by its \<open>status\<close>.
\<close>

definition flags_seen :: "event set \<Rightarrow> retry_state \<Rightarrow> bool" where
  "flags_seen H s =
     (\<forall>i < length (attempts s).
        (dataEnd (attempts s ! i) \<longrightarrow> Up i UEnd \<in> H) \<and>
        (statusReceived (attempts s ! i) \<longrightarrow> (\<exists>st. Up i (UStatus st) \<in> H)))"





text \<open>The metadata values among the events, and the synthesized responses among the calls.\<close>

fun metadata_payloads :: "upstream list \<Rightarrow> payload list" where
  "metadata_payloads [] = []"
| "metadata_payloads (UMetadata m # evs) = m # metadata_payloads evs"
| "metadata_payloads (_ # evs) = metadata_payloads evs"

fun synthesized :: "'req action list \<Rightarrow> response_envelope list" where
  "synthesized [] = []"
| "synthesized (RetryEmit (Response r) # acts) = r # synthesized acts"
| "synthesized (_ # acts) = synthesized acts"


section \<open>Theorems\<close>

lemma indexOf_from_lower: "0 \<le> k \<Longrightarrow> indexOf_from xs c k < 0 \<longleftrightarrow> c \<notin> set xs"
  by (induction xs arbitrary: k) auto

lemma indexOf_neg_iff: "indexOf xs c < 0 \<longleftrightarrow> (case c of None \<Rightarrow> True | Some v \<Rightarrow> v \<notin> set xs)"
  by (cases c) (simp_all add: indexOf_def indexOf_from_lower)

lemma parse_code [simp]: "code (parseGRPCStatusDetails env e) = code e"
proof -
  have "code (foldl copy_error_info e is) = code e" for "is"
    by (induction "is" arbitrary: e) (simp_all add: copy_error_info_def)
  then show ?thesis
    by (simp add: parseGRPCStatusDetails_def split: option.splits)
qed

lemma parse_message [simp]: "message (parseGRPCStatusDetails env e) = message e"
proof -
  have "message (foldl copy_error_info e is) = message e" for "is"
    by (induction "is" arbitrary: e) (simp_all add: copy_error_info_def)
  then show ?thesis
    by (simp add: parseGRPCStatusDetails_def split: option.splits)
qed

lemma parse_new_GoogleError [simp]:
  "parseGRPCStatusDetails env ((new_GoogleError m)\<lparr>code := c\<rparr>) = (new_GoogleError m)\<lparr>code := c\<rparr>"
  by (simp add: parseGRPCStatusDetails_def new_GoogleError_def)

lemmas test_defs =
  test_env_def test_backoff_def test_retry_def test_error_def make_config_def
  initial_state_def fresh_locals_def

lemmas machine_defs =
  step_def on_upstream_def on_error_def on_timer_def newMakeRequest_def
  typeof_not_undefined_def shouldRetryRequest_def defaultShouldRetry_def indexOf_def
  truthy_def throwIfMaxRetriesOrTotalTimeoutExceeded_def transientErrorHelper_def
  statusMetadataHelper_def

subsection \<open>Retry policy\<close>

text \<open>
  C3. \<open>shouldRetryRequest\<close> answers true exactly when the predicate \<open>shouldRetryFn\<close> is
  given and accepts the parsed error, or no predicate is given, \<open>retryCodes\<close> is not empty
  and the error's code is one of them. With no predicate and no retry codes, no error is
  retried.
\<close>

theorem shouldRetryRequest_iff:
  "(shouldRetryRequest env error r \<longleftrightarrow>
      (\<exists>f. shouldRetryFn r = Some f \<and> f (parseGRPCStatusDetails env error)) \<or>
      (shouldRetryFn r = None \<and> retryCodes r \<noteq> [] \<and>
       code error \<in> Some ` set (retryCodes r)))
   \<and> (shouldRetryFn r = None \<and> retryCodes r = [] \<longrightarrow>
        \<not> shouldRetryRequest env error r)"
  by (cases "code error")
     (auto simp: shouldRetryRequest_def defaultShouldRetry_def indexOf_neg_iff Let_def
           split: option.splits)

theorem shouldRetryRequest_iff_witness:
  "shouldRetryFn (test_retry [] test_backoff) = None
   \<and> retryCodes (test_retry [] test_backoff) = []
   \<and> \<not> shouldRetryRequest test_env (test_error 14 ''UNAVAILABLE'') (test_retry [] test_backoff)"
  using shouldRetryRequest_iff [of test_env "test_error 14 ''UNAVAILABLE''" "test_retry [] test_backoff"]
  by (simp add: test_retry_def)

lemma foldl_copy_error_info:
  "foldl copy_error_info e is = (if is = [] then e else copy_error_info e (last is))"
  by (induction "is" rule: rev_induct) (simp_all add: copy_error_info_def)

lemma parse_idem [simp]:
  "parseGRPCStatusDetails env (parseGRPCStatusDetails env e) = parseGRPCStatusDetails env e"
  by (simp add: parseGRPCStatusDetails_def foldl_copy_error_info copy_error_info_def
        split: option.splits)


subsection \<open>Errors without a retry budget\<close>

text \<open>
  C1. With neither \<open>maxRetries\<close> nor \<open>totalTimeoutMillis\<close> configured, the source's
  guard \<open>typeof maxRetries !== undefined || typeof totalTimeout !== undefined\<close> compares
  strings with \<open>undefined\<close> and always holds. A retryable error (code 14 with
  \<open>retryCodes = [14]\<close>) is therefore not surfaced with the "not classified as transient"
  note: the machine sets the retry timer and, when it fires, calls the API again.
\<close>

theorem no_budget_retryable_error_is_retried:
  "snd (run test_env (make_config (test_retry [14] test_backoff) (0::int) False 0)
         (fst (snd (newStreamingRetryRequest (test_retry [14] test_backoff) (0::int) False 0)))
         [Up 0 (UError (test_error 14 ''UNAVAILABLE'') 5), TimerFired 6])
   = [SetTimeout, ApiCall 0]"
  by (simp add: newStreamingRetryRequest_def test_defs machine_defs)

subsection \<open>Both budgets configured\<close>

text \<open>
  C2, as stated, fails: with \<open>maxRetries = 5\<close> and \<open>totalTimeoutMillis = 4000\<close> both
  configured and \<open>retryCodes = [1, 4]\<close>, an error of code 3 is not answered with
  \<open>INVALID_ARGUMENT\<close>; it is surfaced itself, with the "not classified as transient" note.
\<close>

theorem both_budgets_nonretryable_counterexample:
  "snd (step test_env
         (make_config
            (test_retry [1, 4] (test_backoff\<lparr>totalTimeoutMillis := Some 4000, maxRetries := Some 5\<rparr>))
            (0::int) False 0)
         (fst (snd (newStreamingRetryRequest
            (test_retry [1, 4] (test_backoff\<lparr>totalTimeoutMillis := Some 4000, maxRetries := Some 5\<rparr>))
            (0::int) False 0)))
         (Up 0 (UError (test_error 3 ''test error'') 5)))
   = [RequestDestroy 0,
      RetryDestroy ((test_error 3 ''test error'')\<lparr>err_note := Some transient_note\<rparr>)]
   \<and> (test_error 3 ''test error'')\<lparr>err_note := Some transient_note\<rparr> \<noteq> both_budgets_error"
  by (simp add: newStreamingRetryRequest_def test_defs machine_defs both_budgets_error_def
        parseGRPCStatusDetails_def new_GoogleError_def)

text \<open>
  C2, amended. While \<open>maxRetries\<close> and \<open>totalTimeoutMillis\<close> are both configured with
  non-zero values, every upstream error that \<open>shouldRetryRequest\<close> classifies as retryable
  destroys the request stream and destroys the consumer stream with a \<open>GoogleError\<close> of
  code 3 and the message "Cannot set both totalTimeoutMillis and maxRetries in
  backoffSettings."; the check comes after the retry policy is consulted, and an error
  that is not retryable is surfaced with the "not classified as transient" note instead.
\<close>

theorem both_budgets_retryable_invalid_argument:
  assumes "i < length (attempts s)"
    and "truthy (maxRetries (backoffSettings (retry cfg)))"
    and "truthy (totalTimeoutMillis (backoffSettings (retry cfg)))"
  shows "(shouldRetryRequest env error (retry cfg) \<longrightarrow>
            snd (step env cfg s (Up i (UError error now)))
              = [RequestDestroy i, RetryDestroy both_budgets_error])
       \<and> (\<not> shouldRetryRequest env error (retry cfg) \<longrightarrow>
            snd (step env cfg s (Up i (UError error now)))
              = [RequestDestroy i,
                 RetryDestroy ((parseGRPCStatusDetails env error)
                                 \<lparr>err_note := Some transient_note\<rparr>)])
       \<and> code both_budgets_error = Some 3
       \<and> message both_budgets_error
            = ''Cannot set both totalTimeoutMillis and maxRetries in backoffSettings.''"
  using assms
  by (simp add: step_def on_upstream_def on_error_def typeof_not_undefined_def Let_def
        transientErrorHelper_def both_budgets_error_def new_GoogleError_def
        Status_INVALID_ARGUMENT_def)

theorem both_budgets_retryable_invalid_argument_witness:
  "(0::nat) < length (attempts ((initial_state (test_retry [1, 4] test_backoff))\<lparr>attempts := [fresh_locals]\<rparr>))
   \<and> truthy (Some (5::int)) \<and> truthy (Some (4000::rat))
   \<and> shouldRetryRequest test_env (test_error 4 ''test error'')
        (test_retry [1, 4] (test_backoff\<lparr>totalTimeoutMillis := Some 4000, maxRetries := Some 5\<rparr>))
   \<and> snd (step test_env
         (make_config
            (test_retry [1, 4] (test_backoff\<lparr>totalTimeoutMillis := Some 4000, maxRetries := Some 5\<rparr>))
            (0::int) False 0)
         ((initial_state (test_retry [1, 4] test_backoff))\<lparr>attempts := [fresh_locals]\<rparr>)
         (Up 0 (UError (test_error 4 ''test error'') 5)))
     = [RequestDestroy 0, RetryDestroy both_budgets_error]"
  using both_budgets_retryable_invalid_argument
    [of 0 "(initial_state (test_retry [1, 4] test_backoff))\<lparr>attempts := [fresh_locals]\<rparr>"
        "make_config
            (test_retry [1, 4] (test_backoff\<lparr>totalTimeoutMillis := Some 4000, maxRetries := Some 5\<rparr>))
            (0::int) False 0"
        test_env "test_error 4 ''test error''" 5]
  by (simp add: test_defs truthy_def shouldRetryRequest_def defaultShouldRetry_def indexOf_def
        parseGRPCStatusDetails_def new_GoogleError_def)

subsection \<open>The retry budget\<close>

text \<open>
  C6. With only \<open>maxRetries\<close> configured, \<open>maxRetries \<ge> 1\<close>, a retryable error handled
  when the counter \<open>retries\<close> has reached \<open>maxRetries\<close> destroys the request stream and
  destroys the consumer stream with a \<open>GoogleError\<close> of code 4 (\<open>DEADLINE_EXCEEDED\<close>) whose
  message is "Exceeded maximum number of retries retrying error E before any response
  was received", \<open>E\<close> being the original error as a string. Nothing else is done: no
  timer is set and no API call is made.
\<close>

theorem max_retries_exceeded:
  assumes "i < length (attempts s)"
    and "shouldRetryRequest env error (retry cfg)"
    and "maxRetries (backoffSettings (retry cfg)) = Some m"
    and "totalTimeoutMillis (backoffSettings (retry cfg)) = None"
    and "1 \<le> m" and "m \<le> retries s"
  shows "\<exists>e. step env cfg s (Up i (UError error now))
               = (s\<lparr>attempts := (attempts s)[i := (attempts s ! i)\<lparr>enteredError := True\<rparr>]\<rparr>,
                  [RequestDestroy i, RetryDestroy e])
             \<and> code e = Some 4
             \<and> message e = ''Exceeded maximum number of retries '' @ ''retrying error '' @
                   error_toString error @ '' before any response was received''"
  using assms
  by (simp add: step_def on_upstream_def on_error_def typeof_not_undefined_def Let_def
        truthy_def throwIfMaxRetriesOrTotalTimeoutExceeded_def Status_DEADLINE_EXCEEDED_def
        error_toString_def new_GoogleError_def)

theorem max_retries_exceeded_witness:
  "\<exists>e. step test_env
          (make_config (test_retry [14] (test_backoff\<lparr>maxRetries := Some 2\<rparr>)) (0::int) False 0)
          ((initial_state (test_retry [14] test_backoff))
             \<lparr>attempts := [fresh_locals, fresh_locals, fresh_locals], retries := 2\<rparr>)
          (Up 2 (UError (test_error 14 ''UNAVAILABLE'') 5))
        = ((initial_state (test_retry [14] test_backoff))
             \<lparr>attempts := [fresh_locals, fresh_locals, fresh_locals\<lparr>enteredError := True\<rparr>],
               retries := 2\<rparr>,
           [RequestDestroy 2, RetryDestroy e])
      \<and> code e = Some 4
      \<and> message e = ''Exceeded maximum number of retries retrying error Error: UNAVAILABLE before any response was received''"
proof -
  have r: "shouldRetryRequest test_env (test_error 14 ''UNAVAILABLE'')
             (retry (make_config (test_retry [14] (test_backoff\<lparr>maxRetries := Some 2\<rparr>)) (0::int) False 0))"
    by (simp add: test_defs shouldRetryRequest_def defaultShouldRetry_def indexOf_def
          parseGRPCStatusDetails_def new_GoogleError_def)
  show ?thesis
    using max_retries_exceeded
      [of 2 "(initial_state (test_retry [14] test_backoff))
               \<lparr>attempts := [fresh_locals, fresh_locals, fresh_locals], retries := 2\<rparr>"
          test_env "test_error 14 ''UNAVAILABLE''"
          "make_config (test_retry [14] (test_backoff\<lparr>maxRetries := Some 2\<rparr>)) (0::int) False 0"
          2 5, OF _ r]
    by (simp add: test_defs error_toString_def new_GoogleError_def)
qed

subsection \<open>Data resets the retry counter\<close>







subsection \<open>End of the consumer stream\<close>

lemma on_error_attempts:
  "on_error env cfg s i error now = (s', out) \<Longrightarrow>
     attempts s' = attempts s \<and> RetryEnd \<notin> set out"
  by (auto simp: on_error_def Let_def transientErrorHelper_def split: if_splits sum.splits)

lemma step_flags_seen:
  assumes "flags_seen H s" and "step env cfg s e = (s', out)"
  shows "flags_seen (insert e H) s'
       \<and> (RetryEnd \<in> set out \<longrightarrow>
            (\<exists>i st. Up i UEnd \<in> insert e H \<and> Up i (UStatus st) \<in> insert e H))"
proof (cases e)
  case (TimerFired now)
  with assms show ?thesis
    by (auto simp: step_def on_timer_def newMakeRequest_def Let_def flags_seen_def
          nth_append fresh_locals_def split: if_splits)
next
  case (Up i ev)
  show ?thesis
  proof (cases "i < length (attempts s)")
    case False
    with assms Up show ?thesis
      by (auto simp: step_def flags_seen_def)
  next
    case True
    show ?thesis
    proof (cases ev)
      case (UError err now)
      with assms Up True
      have "on_error env cfg
              (s\<lparr>attempts := (attempts s)[i := (attempts s ! i)\<lparr>enteredError := True\<rparr>]\<rparr>)
              i err now = (s', out)"
        by (simp add: step_def on_upstream_def)
      from on_error_attempts [OF this] assms(1) True show ?thesis
        by (auto simp: flags_seen_def nth_list_update split: if_splits)
    qed (use assms Up True in \<open>auto simp: step_def on_upstream_def flags_seen_def Let_def
          statusMetadataHelper_def nth_list_update split: if_splits\<close>)
  qed
qed

lemma run_flags_seen:
  "flags_seen H s \<Longrightarrow> run env cfg s es = (s', out) \<Longrightarrow> RetryEnd \<in> set out \<Longrightarrow>
     \<exists>i st. Up i UEnd \<in> H \<union> set es \<and> Up i (UStatus st) \<in> H \<union> set es"
proof (induction es arbitrary: H s out)
  case Nil
  then show ?case by simp
next
  case (Cons e es)
  obtain s1 o1 where 1: "step env cfg s e = (s1, o1)"
    by (cases "step env cfg s e")
  obtain s2 o2 where r2: "run env cfg s1 es = (s2, o2)"
    by (cases "run env cfg s1 es")
  from Cons.prems 1 r2 have out: "out = o1 @ o2" and "s2 = s'"
    by simp_all
  with r2 have 2: "run env cfg s1 es = (s', o2)"
    by simp
  from step_flags_seen [OF Cons.prems(1) 1]
  have inv: "flags_seen (insert e H) s1"
    and now: "RetryEnd \<in> set o1 \<Longrightarrow>
                \<exists>i st. Up i UEnd \<in> insert e H \<and> Up i (UStatus st) \<in> insert e H"
    by blast+
  show ?case
  proof (cases "RetryEnd \<in> set o1")
    case True
    from now [OF this] show ?thesis by auto
  next
    case False
    with Cons.prems(3) out have "RetryEnd \<in> set o2" by simp
    from Cons.IH [OF inv 2 this] show ?thesis by auto
  qed
qed

lemma flags_seen_initial:
  "flags_seen {} (fst (snd (newStreamingRetryRequest r arg c t0)))"
  by (simp add: newStreamingRetryRequest_def newMakeRequest_def initial_state_def
        flags_seen_def fresh_locals_def Let_def)

lemma step_keeps_enteredError:
  assumes "i < length (attempts s)" and "enteredError (attempts s ! i)"
    and "step env cfg s ev = (s', out)"
  shows "i < length (attempts s') \<and> enteredError (attempts s' ! i)"
proof (cases ev)
  case (TimerFired now)
  with assms show ?thesis
    by (auto simp: step_def on_timer_def newMakeRequest_def Let_def nth_append split: if_splits)
next
  case (Up k u)
  show ?thesis
  proof (cases "k < length (attempts s)")
    case False
    with assms Up show ?thesis by (simp add: step_def)
  next
    case True
    show ?thesis
    proof (cases u)
      case (UError err now)
      with assms Up True
      have "on_error env cfg
              (s\<lparr>attempts := (attempts s)[k := (attempts s ! k)\<lparr>enteredError := True\<rparr>]\<rparr>)
              k err now = (s', out)"
        by (simp add: step_def on_upstream_def)
      from on_error_attempts [OF this] assms(1,2) True show ?thesis
        by (auto simp: nth_list_update)
    qed (use assms Up True in \<open>auto simp: step_def on_upstream_def Let_def nth_list_update
          split: if_splits\<close>)
  qed
qed

lemma run_keeps_enteredError:
  assumes "i < length (attempts s)" and "enteredError (attempts s ! i)"
    and "run env cfg s es = (s', out)"
  shows "i < length (attempts s') \<and> enteredError (attempts s' ! i)"
  using assms
proof (induction es arbitrary: s out)
  case Nil
  then show ?case by simp
next
  case (Cons ev es)
  obtain s1 o1 where 1: "step env cfg s ev = (s1, o1)"
    by (cases "step env cfg s ev")
  obtain o2 where 2: "run env cfg s1 es = (s', o2)"
    using Cons.prems(3) 1 by (cases "run env cfg s1 es") simp
  from step_keeps_enteredError [OF Cons.prems(1,2) 1]
  have "i < length (attempts s1)" "enteredError (attempts s1 ! i)" by simp_all
  from Cons.IH [OF this 2] show ?case .
qed

lemma error_sets_enteredError:
  assumes "i < length (attempts s)" and "step env cfg s (Up i (UError e t)) = (s', out)"
  shows "i < length (attempts s') \<and> enteredError (attempts s' ! i) \<and> RetryEnd \<notin> set out"
proof -
  from assms
  have "on_error env cfg
          (s\<lparr>attempts := (attempts s)[i := (attempts s ! i)\<lparr>enteredError := True\<rparr>]\<rparr>)
          i e t = (s', out)"
    by (simp add: step_def on_upstream_def)
  from on_error_attempts [OF this] assms(1) show ?thesis
    by simp
qed

lemma end_after_error:
  assumes "i < length (attempts s)"
  shows "step env cfg (fst (run env cfg s (Up i (UError e t) # es))) (Up i UEnd)
           = (fst (run env cfg s (Up i (UError e t) # es)), [])"
proof -
  obtain s1 o1 where 1: "step env cfg s (Up i (UError e t)) = (s1, o1)"
    by (cases "step env cfg s (Up i (UError e t))")
  obtain s2 o2 where 2: "run env cfg s1 es = (s2, o2)"
    by (cases "run env cfg s1 es")
  from error_sets_enteredError [OF assms 1]
  have "i < length (attempts s1)" "enteredError (attempts s1 ! i)" by simp_all
  from run_keeps_enteredError [OF this 2]
  have "i < length (attempts s2)" "enteredError (attempts s2 ! i)" by simp_all
  then have "step env cfg s2 (Up i UEnd) = (s2, [])"
    by (simp add: step_def on_upstream_def)
  with 1 2 show ?thesis by simp
qed

lemma error_then_end_no_RetryEnd:
  "RetryEnd \<notin> set (snd (run env cfg s [Up i (UError e t), Up i UEnd]))"
proof (cases "i < length (attempts s)")
  case True
  obtain s1 o1 where 1: "step env cfg s (Up i (UError e t)) = (s1, o1)"
    by (cases "step env cfg s (Up i (UError e t))")
  from error_sets_enteredError [OF True 1] 1 show ?thesis
    by (simp add: step_def [of env cfg s1] on_upstream_def)
next
  case False
  then show ?thesis by (simp add: step_def)
qed

lemma status_error_end_no_RetryEnd:
  assumes "i < length (attempts s)" and "\<not> dataEnd (attempts s ! i)"
  shows "RetryEnd \<notin> set (snd (run env cfg s [Up i (UStatus st), Up i (UError e t), Up i UEnd]))"
proof -
  obtain s1 o1 where 1: "step env cfg s (Up i (UStatus st)) = (s1, o1)"
    by (cases "step env cfg s (Up i (UStatus st))")
  have a: "RetryEnd \<notin> set o1" "i < length (attempts s1)"
    using assms 1 by (auto simp: step_def on_upstream_def statusMetadataHelper_def)
  have "snd (run env cfg s [Up i (UStatus st), Up i (UError e t), Up i UEnd])
          = o1 @ snd (run env cfg s1 [Up i (UError e t), Up i UEnd])"
    using 1 by (simp add: split_beta)
  with a(1) error_then_end_no_RetryEnd [of env cfg s1 i e t] show ?thesis
    by simp
qed

text \<open>
  C5. The machine calls \<open>retryStream.end()\<close> only when the request stream of one
  attempt has emitted both \<open>end\<close> and \<open>status\<close>: in every run from the initial state,
  an output that contains \<open>RetryEnd\<close> implies that both events of one attempt are among
  the events handled. For an attempt with no flag set, an \<open>end\<close> that comes first
  produces no call and the \<open>status\<close> after it ends the consumer stream; a \<open>status\<close>
  that comes first does not end it and the \<open>end\<close> after it does; but if an \<open>error\<close> comes
  between that \<open>status\<close> and the \<open>end\<close>, the consumer stream is not ended. An \<open>end\<close> that
  arrives once \<open>enteredError\<close> is set changes nothing and makes no call, and an \<open>error\<close>
  event of the attempt sets the flag for good: after an \<open>error\<close> of an attempt, whatever
  events follow, an \<open>end\<close> of that attempt changes nothing and makes no call, and an
  \<open>error\<close> followed at once by \<open>end\<close> never ends the consumer stream.
\<close>

theorem consumer_end_needs_end_and_status:
  "(run env cfg (fst (snd (newStreamingRetryRequest r arg c t0))) es = (s', out)
      \<and> RetryEnd \<in> set out \<longrightarrow>
      (\<exists>i st. Up i UEnd \<in> set es \<and> Up i (UStatus st) \<in> set es))
   \<and> (i < length (attempts s) \<and> \<not> enteredError (attempts s ! i)
        \<and> \<not> dataEnd (attempts s ! i) \<and> \<not> statusReceived (attempts s ! i) \<longrightarrow>
        snd (step env cfg s (Up i UEnd)) = []
      \<and> RetryEnd \<in> set (snd (run env cfg s [Up i UEnd, Up i (UStatus st)]))
      \<and> RetryEnd \<notin> set (snd (step env cfg s (Up i (UStatus st))))
      \<and> snd (run env cfg s [Up i (UStatus st), Up i UEnd]) =
          snd (step env cfg s (Up i (UStatus st))) @ [RetryEnd]
      \<and> RetryEnd \<notin> set (snd (run env cfg s [Up i (UStatus st), Up i (UError e t), Up i UEnd])))
   \<and> (j < length (attempts z) \<and> enteredError (attempts z ! j) \<longrightarrow>
        step env cfg z (Up j UEnd) = (z, []))
   \<and> (k < length (attempts w) \<longrightarrow>
        step env cfg (fst (run env cfg w (Up k (UError e' t') # es'))) (Up k UEnd)
          = (fst (run env cfg w (Up k (UError e' t') # es')), []))
   \<and> RetryEnd \<notin> set (snd (run env cfg w [Up k (UError e' t'), Up k UEnd]))"
proof -
  have A: "\<exists>i st. Up i UEnd \<in> set es \<and> Up i (UStatus st) \<in> set es"
    if "run env cfg (fst (snd (newStreamingRetryRequest r arg c t0))) es = (s', out)
          \<and> RetryEnd \<in> set out"
    using that run_flags_seen [OF flags_seen_initial, of env cfg r arg c t0 es s' out]
    by simp
  have B: "snd (step env cfg s (Up i UEnd)) = []
      \<and> RetryEnd \<in> set (snd (run env cfg s [Up i UEnd, Up i (UStatus st)]))
      \<and> RetryEnd \<notin> set (snd (step env cfg s (Up i (UStatus st))))
      \<and> snd (run env cfg s [Up i (UStatus st), Up i UEnd]) =
          snd (step env cfg s (Up i (UStatus st))) @ [RetryEnd]"
    if "i < length (attempts s) \<and> \<not> enteredError (attempts s ! i)
        \<and> \<not> dataEnd (attempts s ! i) \<and> \<not> statusReceived (attempts s ! i)"
    using that by (auto simp: step_def on_upstream_def split_beta statusMetadataHelper_def)
  have C: "RetryEnd \<notin> set (snd (run env cfg s [Up i (UStatus st), Up i (UError e t), Up i UEnd]))"
    if "i < length (attempts s) \<and> \<not> enteredError (attempts s ! i)
        \<and> \<not> dataEnd (attempts s ! i) \<and> \<not> statusReceived (attempts s ! i)"
    using that status_error_end_no_RetryEnd [of i s env cfg st e t] by blast
  have D: "step env cfg z (Up j UEnd) = (z, [])"
    if "j < length (attempts z) \<and> enteredError (attempts z ! j)"
    using that by (simp add: step_def on_upstream_def)
  have E: "step env cfg (fst (run env cfg w (Up k (UError e' t') # es'))) (Up k UEnd)
          = (fst (run env cfg w (Up k (UError e' t') # es')), [])"
    if "k < length (attempts w)"
    using that by (rule end_after_error)
  have F: "RetryEnd \<notin> set (snd (run env cfg w [Up k (UError e' t'), Up k UEnd]))"
    by (rule error_then_end_no_RetryEnd)
  show ?thesis
    using A B C D E F by blast
qed

theorem consumer_end_needs_end_and_status_witness:
  "RetryEnd \<in> set (snd (run test_env
        (make_config (test_retry [14] (test_backoff\<lparr>maxRetries := Some 1\<rparr>)) (0::int) False 0)
        (fst (snd (newStreamingRetryRequest
           (test_retry [14] (test_backoff\<lparr>maxRetries := Some 1\<rparr>)) (0::int) False 0)))
        [Up 0 UEnd, Up 0 (UStatus ''OK'')]))
   \<and> (\<exists>i st. Up i UEnd \<in> set [Up 0 UEnd, Up 0 (UStatus ''OK'')]
          \<and> Up i (UStatus st) \<in> set [Up 0 UEnd, Up 0 (UStatus ''OK'')])
   \<and> snd (step test_env
        (make_config (test_retry [14] (test_backoff\<lparr>maxRetries := Some 1\<rparr>)) (0::int) False 0)
        ((initial_state (test_retry [14] test_backoff))\<lparr>attempts := [fresh_locals]\<rparr>)
        (Up 0 UEnd)) = []
   \<and> snd (run test_env
        (make_config (test_retry [14] (test_backoff\<lparr>maxRetries := Some 1\<rparr>)) (0::int) False 0)
        ((initial_state (test_retry [14] test_backoff))\<lparr>attempts := [fresh_locals]\<rparr>)
        [Up 0 (UStatus ''OK''), Up 0 (UError (test_error 14 ''UNAVAILABLE'') 5), Up 0 UEnd])
      = [RetryEmit (Status ''OK''),
         RetryEmit (Response \<lparr>rcode = 200, rdetails = '''', rmessage = ''OK'', rmetadata = None\<rparr>),
         SetTimeout]
   \<and> step test_env
        (make_config (test_retry [14] (test_backoff\<lparr>maxRetries := Some 1\<rparr>)) (0::int) False 0)
        ((initial_state (test_retry [14] test_backoff))
           \<lparr>attempts := [fresh_locals\<lparr>enteredError := True\<rparr>]\<rparr>)
        (Up 0 UEnd)
      = ((initial_state (test_retry [14] test_backoff))
           \<lparr>attempts := [fresh_locals\<lparr>enteredError := True\<rparr>]\<rparr>, [])
   \<and> run test_env
        (make_config (test_retry [14] (test_backoff\<lparr>maxRetries := Some 1\<rparr>)) (0::int) False 0)
        ((initial_state (test_retry [14] test_backoff))\<lparr>attempts := [fresh_locals]\<rparr>)
        [Up 0 (UError (test_error 14 ''UNAVAILABLE'') 5), Up 0 UEnd]
      = ((initial_state (test_retry [14] test_backoff))
           \<lparr>attempts := [fresh_locals\<lparr>enteredError := True\<rparr>], pending := 1\<rparr>, [SetTimeout])"
  using consumer_end_needs_end_and_status
    [where env = test_env
       and cfg = "make_config (test_retry [14] (test_backoff\<lparr>maxRetries := Some 1\<rparr>)) (0::int) False 0"
       and r = "test_retry [14] (test_backoff\<lparr>maxRetries := Some 1\<rparr>)"
       and arg = "0::int" and c = False and ?t0.0 = 0
       and es = "[Up 0 UEnd, Up 0 (UStatus ''OK'')]"
       and s' = "fst (run test_env
           (make_config (test_retry [14] (test_backoff\<lparr>maxRetries := Some 1\<rparr>)) (0::int) False 0)
           (fst (snd (newStreamingRetryRequest
              (test_retry [14] (test_backoff\<lparr>maxRetries := Some 1\<rparr>)) (0::int) False 0)))
           [Up 0 UEnd, Up 0 (UStatus ''OK'')])"
       and out = "snd (run test_env
           (make_config (test_retry [14] (test_backoff\<lparr>maxRetries := Some 1\<rparr>)) (0::int) False 0)
           (fst (snd (newStreamingRetryRequest
              (test_retry [14] (test_backoff\<lparr>maxRetries := Some 1\<rparr>)) (0::int) False 0)))
           [Up 0 UEnd, Up 0 (UStatus ''OK'')])"
       and i = 0
       and s = "(initial_state (test_retry [14] test_backoff))\<lparr>attempts := [fresh_locals]\<rparr>"
       and st = "''OK''" and e = "test_error 14 ''UNAVAILABLE''" and t = 5
       and j = 0
       and z = "(initial_state (test_retry [14] test_backoff))
                  \<lparr>attempts := [fresh_locals\<lparr>enteredError := True\<rparr>]\<rparr>"
       and k = 0
       and w = "(initial_state (test_retry [14] test_backoff))\<lparr>attempts := [fresh_locals]\<rparr>"
       and e' = "test_error 14 ''UNAVAILABLE''" and t' = 5 and es' = "[]"]
  by (simp add: newStreamingRetryRequest_def test_defs machine_defs)

subsection \<open>The synthesized response\<close>

lemma synthesized_append [simp]: "synthesized (xs @ ys) = synthesized xs @ synthesized ys"
  by (induction xs rule: synthesized.induct) simp_all

lemma synthesized_map_Response [simp]:
  "synthesized (map (\<lambda>r. RetryEmit (Response r)) rs) = rs"
  by (induction rs) simp_all







lemma metadata_payloads_append [simp]:
  "metadata_payloads (xs @ ys) = metadata_payloads xs @ metadata_payloads ys"
  by (induction xs rule: metadata_payloads.induct) simp_all








subsection \<open>The legacy wrapper after a response\<close>








subsection \<open>The empty-page guard of the iterator\<close>

declare fetch_loop.simps [simp del]

lemma fetch_loop_bound:
  fixes apiCall :: "'q \<Rightarrow> 'e + 'r page_result \<times> 'q option"
  shows "attempts' \<le> maxAttemptsEmptyResponse \<Longrightarrow>
     (case fetch_loop apiCall nextPageRequest attempts' sent of
        Inl (e, n, sent') \<Rightarrow> length sent' \<le> length sent + (maxAttemptsEmptyResponse + 1 - attempts')
      | Inr (cache, n, sent') \<Rightarrow> length sent' \<le> length sent + (maxAttemptsEmptyResponse + 1 - attempts'))"
proof (induction apiCall nextPageRequest attempts' sent rule: fetch_loop.induct)
  case (1 apiCall nextPageRequest attempts' sent)
  show ?case
  proof (cases nextPageRequest)
    case None
    then show ?thesis
      by (subst fetch_loop.simps) simp
  next
    case (Some q)
    show ?thesis
    proof (cases "apiCall q")
      case (Inl e)
      with Some "1.prems" show ?thesis
        by (subst fetch_loop.simps) simp
    next
      case (Inr p)
      obtain result n' where p: "p = (result, n')"
        by (cases p)
      show ?thesis
      proof (cases "cache_push result :: 'e iter_error + 'r cache_item list")
        case (Inl e)
        with Some Inr p "1.prems" show ?thesis
          by (subst fetch_loop.simps) simp
      next
        case cache: (Inr cache)
        show ?thesis
        proof (cases "cache = [] \<and> \<not> attempts' + 1 > maxAttemptsEmptyResponse")
          case True
          then have le: "attempts' + 1 \<le> maxAttemptsEmptyResponse"
            and e1: "cache = []" and e2: "\<not> maxAttemptsEmptyResponse < attempts' + 1"
            by simp_all
          from "1.IH" [OF Some Inr p [symmetric] cache e1 e2 le]
          have "case fetch_loop apiCall n' (attempts' + 1) (sent @ [q]) of
                  Inl (e, n, sent') \<Rightarrow>
                    length sent' \<le> length (sent @ [q]) + (maxAttemptsEmptyResponse + 1 - (attempts' + 1))
                | Inr (cache, n, sent') \<Rightarrow>
                    length sent' \<le> length (sent @ [q]) + (maxAttemptsEmptyResponse + 1 - (attempts' + 1))"
            by simp
          moreover have "fetch_loop apiCall nextPageRequest attempts' sent
                         = fetch_loop apiCall n' (attempts' + 1) (sent @ [q])"
            using Some Inr p cache True
            by (subst fetch_loop.simps) simp
          ultimately show ?thesis
            using le by (auto split: sum.splits)
        next
          case False
          with Some Inr p cache "1.prems" show ?thesis
            by (subst fetch_loop.simps) auto
        qed
      qed
    qed
  qed
qed

lemma fetch_loop_empty_pages:
  assumes "\<forall>k \<le> maxAttemptsEmptyResponse.
             \<exists>res. apiCall (reqs k) = Inr (res, Some (reqs (Suc k)))
                   \<and> cache_push res = (Inr [] :: 'e iter_error + 'r cache_item list)"
    and "n = maxAttemptsEmptyResponse + 1 - a" and "a \<le> maxAttemptsEmptyResponse"
  shows "(fetch_loop apiCall (Some (reqs a)) a sent
            :: ('e iter_error \<times> 'q option \<times> 'q list) + ('r cache_item list \<times> 'q option \<times> 'q list))
         = Inr ([], Some (reqs (maxAttemptsEmptyResponse + 1)),
                sent @ map reqs [a ..< maxAttemptsEmptyResponse + 1])"
  using assms(2,3)
proof (induction n arbitrary: a sent)
  case 0
  then show ?case by simp
next
  case (Suc n)
  from assms(1) Suc.prems(2) obtain res
    where api: "apiCall (reqs a) = Inr (res, Some (reqs (Suc a)))"
      and emp: "cache_push res = (Inr [] :: 'e iter_error + 'r cache_item list)"
    by blast
  show ?case
  proof (cases "a = maxAttemptsEmptyResponse")
    case True
    then show ?thesis
      using api emp by (subst fetch_loop.simps) simp
  next
    case False
    with Suc.prems have a: "Suc a \<le> maxAttemptsEmptyResponse"
      and n: "n = maxAttemptsEmptyResponse + 1 - Suc a"
      by simp_all
    have up: "[a ..< maxAttemptsEmptyResponse + 1] = a # [Suc a ..< maxAttemptsEmptyResponse + 1]"
      using a by (simp add: upt_rec)
    have "(fetch_loop apiCall (Some (reqs a)) a sent
            :: ('e iter_error \<times> 'q option \<times> 'q list) + ('r cache_item list \<times> 'q option \<times> 'q list))
          = fetch_loop apiCall (Some (reqs (Suc a))) (Suc a) (sent @ [reqs a])"
      using api emp a by (subst fetch_loop.simps) simp
    with Suc.IH [OF n a, of "sent @ [reqs a]"] show ?thesis
      unfolding up by simp
  qed
qed

text \<open>
  C8, as stated, fails: the loop breaks when \<open>attempts > maxAttemptsEmptyResponse\<close>,
  that is at the eleventh empty page. When every page is empty, \<open>next()\<close> sends eleven
  requests before it resolves to \<open>{done: true, value: undefined}\<close>; when ten empty pages
  are followed by a page with a resource, \<open>next()\<close> does not stop after the tenth: it
  fetches the eleventh page and yields the resource.
\<close>

theorem ten_empty_pages_counterexample:
  "iterator_next empty_pages_api (createIterator 0)
     = Inr (Done, ([], Some 11), [0, 1, 2, 3, 4, 5, 6, 7, 8, 9, 10])
   \<and> iterator_next ten_empty_pages_api (createIterator 0)
     = Inr (Yield (Resource ''resource''), ([], None), [0, 1, 2, 3, 4, 5, 6, 7, 8, 9, 10])"
  by (simp add: iterator_next_def createIterator_def empty_pages_api_def ten_empty_pages_api_def
        fetch_loop.simps cache_push_def maxAttemptsEmptyResponse_def)

text \<open>
  C8, amended. When the successive page calls of one \<open>next()\<close> return a non-null
  next-page request and no resources, the iterator breaks out of the fetch loop after 11
  consecutive empty pages (once the count of empty pages exceeds
  \<open>maxAttemptsEmptyResponse = 10\<close>), having sent exactly these 11 requests, and \<open>next()\<close>
  resolves to \<open>{done: true, value: undefined}\<close>. Whatever the API answers, one \<open>next()\<close>
  never sends more than 11 requests.
\<close>

theorem eleven_empty_pages_end_iteration:
  assumes "\<forall>k \<le> maxAttemptsEmptyResponse.
             \<exists>res. apiCall (reqs k) = Inr (res, Some (reqs (Suc k)))
                   \<and> cache_push res = (Inr [] :: 'e iter_error + 'r cache_item list)"
  shows "(iterator_next apiCall (createIterator (reqs 0))
            :: ('e iter_error \<times> 'q option \<times> 'q list)
               + ('r iter_result \<times> ('r cache_item list \<times> 'q option) \<times> 'q list))
           = Inr (Done, ([], Some (reqs 11)), map reqs [0 ..< 11])
       \<and> (case (iterator_next api st
                :: ('e iter_error \<times> 'q option \<times> 'q list)
                   + ('r iter_result \<times> ('r cache_item list \<times> 'q option) \<times> 'q list)) of
             Inl (e, n, sent) \<Rightarrow> length sent \<le> 11
           | Inr (res, st', sent) \<Rightarrow> length sent \<le> 11)"
proof -
  have "(fetch_loop apiCall (Some (reqs 0)) 0 []
            :: ('e iter_error \<times> 'q option \<times> 'q list) + ('r cache_item list \<times> 'q option \<times> 'q list))
         = Inr ([], Some (reqs (maxAttemptsEmptyResponse + 1)),
                [] @ map reqs [0 ..< maxAttemptsEmptyResponse + 1])"
    by (rule fetch_loop_empty_pages [OF assms]) simp_all
  then have A: "(iterator_next apiCall (createIterator (reqs 0))
            :: ('e iter_error \<times> 'q option \<times> 'q list)
               + ('r iter_result \<times> ('r cache_item list \<times> 'q option) \<times> 'q list))
           = Inr (Done, ([], Some (reqs 11)), map reqs [0 ..< 11])"
    by (simp add: iterator_next_def createIterator_def maxAttemptsEmptyResponse_def)
  obtain cache n where st: "st = (cache, n)"
    by (cases st)
  have "case (fetch_loop api n 0 []
           :: ('e iter_error \<times> 'q option \<times> 'q list) + ('r cache_item list \<times> 'q option \<times> 'q list)) of
          Inl (e, n, sent') \<Rightarrow> length sent' \<le> 11
        | Inr (cache, n, sent') \<Rightarrow> length sent' \<le> 11"
    using fetch_loop_bound [where attempts' = 0 and apiCall = api and nextPageRequest = n
        and sent = "[]"]
    by (auto simp: maxAttemptsEmptyResponse_def split: sum.splits)
  then have B: "case (iterator_next api st
                :: ('e iter_error \<times> 'q option \<times> 'q list)
                   + ('r iter_result \<times> ('r cache_item list \<times> 'q option) \<times> 'q list)) of
             Inl (e, n, sent) \<Rightarrow> length sent \<le> 11
           | Inr (res, st', sent) \<Rightarrow> length sent \<le> 11"
    by (auto simp: iterator_next_def st split: sum.splits)
  show ?thesis
    using A B by simp
qed

theorem eleven_empty_pages_end_iteration_witness:
  "iterator_next empty_pages_api (createIterator (id 0))
     = Inr (Done, ([], Some (id 11)), map id [0 ..< 11])"
proof -
  have h: "\<forall>k \<le> maxAttemptsEmptyResponse.
             \<exists>res. empty_pages_api (id k) = Inr (res, Some (id (Suc k)))
                   \<and> cache_push res = (Inr [] :: string iter_error + string cache_item list)"
    by (simp add: empty_pages_api_def cache_push_def)
  show ?thesis
    using eleven_empty_pages_end_iteration [OF h, of empty_pages_api "createIterator 0"]
    by simp
qed

subsection \<open>The page token of the page stream\<close>

lemma page_calls_append [simp]: "page_calls (xs @ ys) = page_calls xs @ page_calls ys"
  by (induction xs rule: page_calls.induct) simp_all

lemma push_resources_frame:
  "push_resources m s rs = (s', out) \<Longrightarrow>
     options s' = options s \<and> request s' = request s \<and> started s' = started s
     \<and> paused s' = paused s \<and> page_calls out = []"
proof (induction rs arbitrary: s out s')
  case Nil
  then show ?case by simp
next
  case (Cons r rs)
  show ?case
  proof (cases "ended s")
    case True
    with Cons.prems show ?thesis by simp
  next
    case False
    show ?thesis
    proof (cases r)
      case None
      with False Cons show ?thesis by simp
    next
      case (Some v)
      let ?s1 = "s\<lparr>pushCount := pushCount s + 1\<rparr>"
      show ?thesis
      proof (cases "pushCount ?s1 = m")
        case True
        obtain s2 o2 where r: "push_resources m (?s1\<lparr>ended := True\<rparr>) rs = (s2, o2)"
          by (cases "push_resources m (?s1\<lparr>ended := True\<rparr>) rs")
        from Cons.IH [OF r] Cons.prems False Some True r show ?thesis
          by (auto simp: Let_def)
      next
        case neq: False
        obtain s2 o2 where r: "push_resources m ?s1 rs = (s2, o2)"
          by (cases "push_resources m ?s1 rs")
        from Cons.IH [OF r] Cons.prems False Some neq r show ?thesis
          by (auto simp: Let_def)
      qed
    qed
  qed
qed

lemma callback_cases:
  assumes "callback s err resources next' apiResp = (s', out)"
  shows "(options s' = options s \<or> options s' = (options s)\<lparr>pageToken := None\<rparr>)
       \<and> (started s' = started s \<or> (\<not> started s' \<and> pageToken (options s') = None))
       \<and> (\<forall>c \<in> set (page_calls out). pageToken (snd c) = None \<and> snd c = options s')
       \<and> length (page_calls out) \<le> 1"
proof (cases err)
  case (Some e)
  with assms show ?thesis
    by (auto simp: callback_def)
next
  case None
  obtain s1 o1 where p: "push_resources (stream_maxResults (options s)) s resources = (s1, o1)"
    by (cases "push_resources (stream_maxResults (options s)) s resources")
  note f = push_resources_frame [OF p]
  from assms None p f show ?thesis
    by (cases next') (auto simp: callback_def Let_def split: if_splits)
qed

lemma stream_step_inv:
  assumes "stream_step s ev = (s', out)"
    and "called \<and> \<not> started s \<longrightarrow> pageToken (options s) = None"
  shows "((called \<or> page_calls out \<noteq> []) \<and> \<not> started s' \<longrightarrow> pageToken (options s') = None)
       \<and> (called \<longrightarrow> (\<forall>c \<in> set (page_calls out). pageToken (snd c) = None))
       \<and> (\<forall>c \<in> set (tl (page_calls out)). pageToken (snd c) = None)
       \<and> (options s')\<lparr>pageToken := None\<rparr> = (options s)\<lparr>pageToken := None\<rparr>
       \<and> (\<forall>c \<in> set (page_calls out).
             (snd c)\<lparr>pageToken := None\<rparr> = (options s)\<lparr>pageToken := None\<rparr>)"
proof (cases ev)
  case Resume
  with assms show ?thesis
    by (auto simp: stream_step_def split: if_splits)
next
  case Pause
  with assms show ?thesis
    by (auto simp: stream_step_def)
next
  case (Callback err resources next' apiResp)
  with assms(1) have c: "callback s err resources next' apiResp = (s', out)"
    by (simp add: stream_step_def)
  note cc = callback_cases [OF c]
  have tl: "tl (page_calls out) = []"
    using cc by (cases "page_calls out") auto
  have ne: "page_calls out \<noteq> [] \<Longrightarrow> pageToken (options s') = None"
    using cc by (cases "page_calls out") auto
  from cc assms(2) tl ne show ?thesis
    by auto
qed

lemma stream_run_inv:
  assumes "stream_run s es = (s', out)"
    and "called \<and> \<not> started s \<longrightarrow> pageToken (options s) = None"
  shows "(\<forall>c \<in> set (if called then page_calls out else tl (page_calls out)).
            pageToken (snd c) = None)
       \<and> (\<forall>c \<in> set (page_calls out).
             (snd c)\<lparr>pageToken := None\<rparr> = (options s)\<lparr>pageToken := None\<rparr>)
       \<and> (options s')\<lparr>pageToken := None\<rparr> = (options s)\<lparr>pageToken := None\<rparr>"
  using assms
proof (induction es arbitrary: s out called)
  case Nil
  then show ?case by simp
next
  case (Cons e es)
  obtain s1 o1 where 1: "stream_step s e = (s1, o1)"
    by (cases "stream_step s e")
  obtain o2 where 2: "stream_run s1 es = (s', o2)" and out: "out = o1 @ o2"
    using Cons.prems(1) 1 by (cases "stream_run s1 es") simp
  note st = stream_step_inv [OF 1 Cons.prems(2)]
  from st have inv1: "(called \<or> page_calls o1 \<noteq> []) \<and> \<not> started s1 \<longrightarrow> pageToken (options s1) = None"
    by blast
  note ih = Cons.IH [OF 2 inv1]
  show ?case
  proof (cases "page_calls o1")
    case Nil
    with ih st show ?thesis
      unfolding out by (auto split: if_splits)
  next
    case (Cons c cs)
    with ih st show ?thesis
      unfolding out by (auto split: if_splits)
  qed
qed

text \<open>
  C9, as stated, fails for a page that ends the stream: with \<open>pageToken = "x"\<close> and
  \<open>maxResults = 1\<close> in the options, a first page with one resource and a non-null
  next-page request reaches \<open>maxResults\<close>; the callback ends the stream and returns
  before the \<open>delete\<close>, and the options still hold \<open>pageToken = "x"\<close>.
\<close>

theorem page_token_kept_counterexample:
  "pageToken (options (fst (stream_run
      (fst (createStream (0::nat)
              \<lparr>autoPaginate = None, maxResults = Some 1, pageToken = Some ''x''\<rparr>
            :: (nat, unit) page_stream \<times> (nat, string, unit) stream_action list))
      [Resume, Callback None [Some ''resource''] (Some 1) ''response''
         :: (nat, string) stream_event])))
   = Some ''x''"
  by (simp add: createStream_def stream_step_def callback_def stream_maxResults_def)

text \<open>
  C9, amended. If a page comes without error, carries a non-null next-page request and
  does not end the stream (\<open>maxResults\<close> is not reached while its resources are pushed),
  the callback deletes \<open>pageToken\<close> from the options and leaves their other fields as
  they are; the next page call is made for the request returned by this page with these
  options, at once through \<open>setImmediate\<close> or, if the stream is paused, by the next
  \<open>resume\<close>. In every run of a stream made by \<open>createStream\<close>, every page call after the
  first carries no \<open>pageToken\<close>, and the options of every page call and of the final state
  are the original options with \<open>autoPaginate = false\<close>, except for \<open>pageToken\<close>.
\<close>

theorem page_token_deleted_for_next_call:
  "(\<not> ended (fst (push_resources (stream_maxResults (options s)) s resources)) \<longrightarrow>
      options (fst (stream_step s (Callback None resources (Some n) apiResp)))
        = (options s)\<lparr>pageToken := None\<rparr>
      \<and> (\<not> paused s \<longrightarrow>
           page_calls (snd (stream_step s (Callback None resources (Some n) apiResp)))
             = [(n, (options s)\<lparr>pageToken := None\<rparr>)])
      \<and> (paused s \<longrightarrow>
           page_calls (snd (stream_step s (Callback None resources (Some n) apiResp))) = []
           \<and> snd (stream_step (fst (stream_step s (Callback None resources (Some n) apiResp)))
                   Resume)
               = [PageCall n ((options s)\<lparr>pageToken := None\<rparr>)]))
   \<and> (stream_run (fst (createStream request' options')) es = (s', out) \<longrightarrow>
        (\<forall>c \<in> set (tl (page_calls out)). pageToken (snd c) = None)
      \<and> (\<forall>c \<in> set (page_calls out).
            (snd c)\<lparr>pageToken := None\<rparr>
              = options'\<lparr>autoPaginate := Some False, pageToken := None\<rparr>)
      \<and> (options s')\<lparr>pageToken := None\<rparr>
            = options'\<lparr>autoPaginate := Some False, pageToken := None\<rparr>)"
proof (intro conjI impI)
  assume r: "stream_run (fst (createStream request' options')) es = (s', out)"
  note inv = stream_run_inv [OF r, of False]
  show "\<forall>c \<in> set (tl (page_calls out)). pageToken (snd c) = None"
    using inv by simp
  show "\<forall>c \<in> set (page_calls out).
            (snd c)\<lparr>pageToken := None\<rparr>
              = options'\<lparr>autoPaginate := Some False, pageToken := None\<rparr>"
    using inv by (simp add: createStream_def)
  show "(options s')\<lparr>pageToken := None\<rparr>
            = options'\<lparr>autoPaginate := Some False, pageToken := None\<rparr>"
    using inv by (simp add: createStream_def)
next
  assume ne: "\<not> ended (fst (push_resources (stream_maxResults (options s)) s resources))"
  obtain s1 o1 where p: "push_resources (stream_maxResults (options s)) s resources = (s1, o1)"
    by (cases "push_resources (stream_maxResults (options s)) s resources")
  note f = push_resources_frame [OF p]
  show "options (fst (stream_step s (Callback None resources (Some n) apiResp)))
        = (options s)\<lparr>pageToken := None\<rparr>"
    using ne p f by (simp add: stream_step_def callback_def Let_def)
  show "page_calls (snd (stream_step s (Callback None resources (Some n) apiResp)))
             = [(n, (options s)\<lparr>pageToken := None\<rparr>)]" if "\<not> paused s"
    using that ne p f by (simp add: stream_step_def callback_def Let_def)
  show "page_calls (snd (stream_step s (Callback None resources (Some n) apiResp))) = []"
    if "paused s"
    using that ne p f by (simp add: stream_step_def callback_def Let_def)
  show "snd (stream_step (fst (stream_step s (Callback None resources (Some n) apiResp)))
                   Resume)
               = [PageCall n ((options s)\<lparr>pageToken := None\<rparr>)]" if "paused s"
    using that ne p f by (simp add: stream_step_def callback_def Let_def)
qed

theorem page_token_deleted_for_next_call_witness:
  "snd (stream_run
      (fst (createStream (0::nat)
              \<lparr>autoPaginate = None, maxResults = None, pageToken = Some ''x''\<rparr>
            :: (nat, unit) page_stream \<times> (nat, string, unit) stream_action list))
      [Resume, Callback None [Some ''resource''] (Some 1) ''response''
         :: (nat, string) stream_event])
   = [PageCall 0 \<lparr>autoPaginate = Some False, maxResults = None, pageToken = Some ''x''\<rparr>,
      StreamEmitResponse ''response'', StreamPush ''resource'',
      PageCallImmediate 1 \<lparr>autoPaginate = Some False, maxResults = None, pageToken = None\<rparr>]
   \<and> map (\<lambda>c. pageToken (snd c)) (tl (page_calls
         [PageCall (0::nat) \<lparr>autoPaginate = Some False, maxResults = None, pageToken = Some ''x''\<rparr>,
          StreamEmitResponse ''response'', StreamPush ''resource'',
          PageCallImmediate 1 \<lparr>autoPaginate = Some False, maxResults = None, pageToken = None\<rparr>
          :: (nat, string, unit) stream_action]))
       = [None]"
  using page_token_deleted_for_next_call
    [where s = "(fst (createStream (0::nat)
              \<lparr>autoPaginate = None, maxResults = None, pageToken = Some ''x''\<rparr>
            :: (nat, unit) page_stream \<times> (nat, string, unit) stream_action list))
            \<lparr>started := True\<rparr>"
       and resources = "[Some ''resource'']" and n = 1 and apiResp = "''response''"
       and request' = "0::nat"
       and options' = "\<lparr>autoPaginate = None, maxResults = None, pageToken = Some ''x''\<rparr>"
       and es = "[Resume, Callback None [Some ''resource''] (Some 1) ''response'']"
       and s' = "fst (stream_run
           (fst (createStream (0::nat)
              \<lparr>autoPaginate = None, maxResults = None, pageToken = Some ''x''\<rparr>
            :: (nat, unit) page_stream \<times> (nat, string, unit) stream_action list))
           [Resume, Callback None [Some ''resource''] (Some 1) ''response''
              :: (nat, string) stream_event])"
       and out = "snd (stream_run
           (fst (createStream (0::nat)
              \<lparr>autoPaginate = None, maxResults = None, pageToken = Some ''x''\<rparr>
            :: (nat, unit) page_stream \<times> (nat, string, unit) stream_action list))
           [Resume, Callback None [Some ''resource''] (Some 1) ''response''
              :: (nat, string) stream_event])"]
  by (simp add: createStream_def stream_step_def callback_def stream_maxResults_def)

end
